theory Spec2Isabelle
  imports Main "HOL-Library.Sublist" "HOL-Library.Char_ord" "HOL-Library.List_Lexorder"
begin

section \<open>Python string primitives used by the trainer\<close>

text \<open>
  Strings are byte strings (\<open>char list\<close>); entry names are taken to be ASCII, so that
  \<open>str.lower\<close> only touches the letters A to Z. \<open>s.startswith(p)\<close> is \<open>prefix p s\<close>,
  \<open>s.endswith(p)\<close> is \<open>suffix p s\<close> and \<open>p in s\<close> is \<open>sublist p s\<close>.
\<close>

definition lower_char :: "char \<Rightarrow> char" where
  "lower_char c =
     (case map_of (zip ''ABCDEFGHIJKLMNOPQRSTUVWXYZ'' ''abcdefghijklmnopqrstuvwxyz'') c of
        Some l \<Rightarrow> l
      | None \<Rightarrow> c)"

definition lower :: "string \<Rightarrow> string" where
  "lower s = map lower_char s"

text \<open>\<open>s.rfind(c)\<close>: the highest index of \<open>c\<close> in \<open>s\<close>, or \<open>-1\<close>.\<close>

fun rfind_from :: "char \<Rightarrow> string \<Rightarrow> int \<Rightarrow> int \<Rightarrow> int" where
  "rfind_from c [] i found = found"
| "rfind_from c (x # xs) i found = rfind_from c xs (i + 1) (if x = c then i else found)"

definition rfind :: "char \<Rightarrow> string \<Rightarrow> int" where
  "rfind c s = rfind_from c s 0 (- 1)"

text \<open>
  \<open>os.path.splitext\<close> (posixpath): the extension starts at the last dot after the last
  slash, unless only dots stand between that slash and the dot (a leading-dot name has
  no extension). The library's loop over \<open>filenameIndex\<close> returns the split at the first
  character that is not a dot; \<open>list_ex\<close> over the same index range says so.
\<close>

definition splitext :: "string \<Rightarrow> string \<times> string" where
  "splitext p =
     (let sepIndex = rfind CHR ''/'' p;
          dotIndex = rfind CHR ''.'' p
      in if sepIndex < dotIndex \<and>
            list_ex (\<lambda>c. c \<noteq> CHR ''.'')
              (take (nat (dotIndex - (sepIndex + 1))) (drop (nat (sepIndex + 1)) p))
         then (take (nat dotIndex) p, drop (nat dotIndex) p)
         else (p, []))"

text \<open>\<open>sep.join(xs)\<close>.\<close>

fun join :: "string \<Rightarrow> string list \<Rightarrow> string" where
  "join sep [] = []"
| "join sep [x] = x"
| "join sep (x # y # ys) = x @ sep @ join sep (y # ys)"

text \<open>\<open>str(n)\<close> for a non-negative integer.\<close>

definition digit_char :: "nat \<Rightarrow> char" where
  "digit_char d = ''0123456789'' ! d"

function str_nat :: "nat \<Rightarrow> string" where
  "str_nat n = (if n < 10 then [digit_char n] else str_nat (n div 10) @ [digit_char (n mod 10)])"
  by pat_completeness auto
termination
  by (relation "measure id") auto

declare str_nat.simps [simp del]

section \<open>Dataset validation (config.py, validate\_dataset\_structure)\<close>

text \<open>Every failure of the validator is a Python \<open>ValueError\<close> carrying its message.\<close>

datatype error = ValueError string

text \<open>
  Python iterates a set in an order the language does not fix. The validator does so
  twice (\<open>', '.join(image_extensions)\<close> and \<open>list(unpaired_images)[:5]\<close>), so the model
  takes the iteration order as a parameter; \<open>set_iteration\<close> says that it enumerates
  each finite set once.
\<close>

type_synonym set_order = "string set \<Rightarrow> string list"

definition set_iteration :: "set_order \<Rightarrow> bool" where
  "set_iteration ord \<longleftrightarrow> (\<forall>S. finite S \<longrightarrow> set (ord S) = S \<and> distinct (ord S))"

definition image_extensions :: "string set" where
  "image_extensions =
     {''.jpg'', ''.jpeg'', ''.png'', ''.bmp'', ''.tiff'', ''.tif'', ''.webp''}"

text \<open>The filter on the archive listing: directories and system files are dropped.\<close>

definition is_valid_file :: "string \<Rightarrow> bool" where
  "is_valid_file f \<longleftrightarrow>
     \<not> suffix ''/'' f \<and> \<not> prefix ''.'' f \<and> \<not> prefix ''__MACOSX'' f"

text \<open>
  The categorising loop: \<open>base_name\<close> comes from the entry as written, \<open>ext\<close> from its
  lower-cased copy. The result is \<open>(image_files, text_files, other_files)\<close>, each in
  listing order.
\<close>

fun categorize ::
  "string list \<Rightarrow> (string \<times> string) list \<times> (string \<times> string) list \<times> string list" where
  "categorize [] = ([], [], [])"
| "categorize (file # files) =
     (let file_lower = lower file;
          base_name = fst (splitext file);
          ext = snd (splitext file_lower);
          (image_files, text_files, other_files) = categorize files
      in if ext \<in> image_extensions then ((base_name, file) # image_files, text_files, other_files)
         else if ext = ''.txt'' then (image_files, (base_name, file) # text_files, other_files)
         else (image_files, text_files, file # other_files))"

definition image_files_of :: "string list \<Rightarrow> (string \<times> string) list" where
  "image_files_of file_list = fst (categorize (filter is_valid_file file_list))"

definition text_files_of :: "string list \<Rightarrow> (string \<times> string) list" where
  "text_files_of file_list = fst (snd (categorize (filter is_valid_file file_list)))"

definition other_files_of :: "string list \<Rightarrow> string list" where
  "other_files_of file_list = snd (snd (categorize (filter is_valid_file file_list)))"

definition image_bases_of :: "string list \<Rightarrow> string set" where
  "image_bases_of file_list = set (map fst (image_files_of file_list))"

definition text_bases_of :: "string list \<Rightarrow> string set" where
  "text_bases_of file_list = set (map fst (text_files_of file_list))"

subsection \<open>Messages\<close>

text \<open>The arrow and the check mark of the source are written as their UTF-8 bytes.\<close>

definition arrow :: string where
  "arrow = [CHR 0xE2, CHR 0x86, CHR 0x92]"

definition check_mark :: string where
  "check_mark = [CHR 0xE2, CHR 0x9C, CHR 0x93]"

definition newline :: string where
  "newline = [CHR 0x0A]"

definition empty_archive_message :: string where
  "empty_archive_message = ''Dataset ZIP file appears to be empty or contains no valid files''"

definition no_images_message :: "set_order \<Rightarrow> string" where
  "no_images_message ord =
     ''No image files found in dataset. Supported formats: '' @ join '', '' (ord image_extensions)"

definition no_captions_message :: string where
  "no_captions_message =
     ''No caption files (.txt) found in dataset.'' @ newline @
     ''IMPORTANT: Manual captioning is required - each image must have a corresponding .txt file.''
       @ newline @
     ''Example: image1.jpg '' @ arrow @ '' image1.txt, photo2.png '' @ arrow @ '' photo2.txt''"

definition unpaired_images_message :: "set_order \<Rightarrow> string set \<Rightarrow> string" where
  "unpaired_images_message ord unpaired_images =
     ''Found '' @ str_nat (card unpaired_images) @ '' image(s) without matching caption files.''
       @ newline @
     ''Missing captions for: '' @ join '', '' (take 5 (ord unpaired_images)) @
     (if 5 < card unpaired_images
      then '' and '' @ str_nat (card unpaired_images - 5) @ '' more'' else '''') @ newline @
     ''Each image must have a corresponding .txt file with the same filename.''"

definition unpaired_texts_warning :: "string set \<Rightarrow> string" where
  "unpaired_texts_warning unpaired_texts =
     ''Warning: Found '' @ str_nat (card unpaired_texts) @
     '' caption file(s) without matching images.''"

definition success_message :: "nat \<Rightarrow> string" where
  "success_message paired_count =
     check_mark @ '' Dataset validation passed: '' @ str_nat paired_count @
     '' properly paired image/caption files found''"

definition other_files_note :: "string list \<Rightarrow> string" where
  "other_files_note other_files =
     ''Note: '' @ str_nat (length other_files) @
     '' other files found (will be ignored during training)''"

text \<open>
  The outer handler: an exception whose text mentions captions is raised again as it
  is, any other one is wrapped.
\<close>

definition reraise :: "string \<Rightarrow> error" where
  "reraise msg =
     (if sublist ''image/caption'' msg \<or> sublist ''caption'' msg then ValueError msg
      else ValueError (''Failed to validate dataset structure: '' @ msg))"

subsection \<open>The validator\<close>

text \<open>
  \<open>validate_dataset_structure\<close> from the point where the archive listing
  (\<open>zip_file.namelist()\<close>) is known; the download and the opening of the archive are
  outside the model. The result is the list of lines printed and either the error
  raised or the value returned.
\<close>

definition validate_dataset_structure ::
  "set_order \<Rightarrow> string list \<Rightarrow> string list \<times> (error + bool)" where
  "validate_dataset_structure ord file_list =
     (let files = filter is_valid_file file_list
      in if files = [] then ([], Inl (reraise empty_archive_message))
         else
           let (image_files, text_files, other_files) = categorize files;
               image_bases = set (map fst image_files);
               text_bases = set (map fst text_files)
           in if image_files = [] then ([], Inl (reraise (no_images_message ord)))
              else if text_files = [] then ([], Inl (reraise no_captions_message))
              else
                let unpaired_images = image_bases - text_bases;
                    unpaired_texts = text_bases - image_bases
                in if unpaired_images \<noteq> {}
                   then ([], Inl (reraise (unpaired_images_message ord unpaired_images)))
                   else
                     let paired_count = card (image_bases \<inter> text_bases)
                     in ((if unpaired_texts \<noteq> {}
                          then [unpaired_texts_warning unpaired_texts] else []) @
                         [success_message paired_count] @
                         (if other_files \<noteq> [] then [other_files_note other_files] else []),
                         Inr True))"

section \<open>Training jobs (training.py, TrainingManager)\<close>

text \<open>
  The remote service is the environment of the manager. Each request the manager sends
  is recorded, in order, as a \<open>remote_call\<close>; what the service answers is an input
  of the model.
\<close>

datatype remote_call = TrainingsGet | TrainingCancel

subsection \<open>monitor\_training\<close>

text \<open>
  One pass through the body of \<open>while True\<close> calls \<open>get_training_status\<close> and, when
  the status is not terminal, \<open>time.sleep\<close>. The call returns a status, is interrupted
  (\<open>KeyboardInterrupt\<close>) or raises another exception; the sleep ends or is interrupted.
  A script lists what happens in each pass, as far as the environment is known. The
  loop has no exit of its own: \<open>None\<close> says that it is still polling when the script
  ends.
\<close>

datatype poll_outcome = Status string | KeyboardInterrupt | Exception string

datatype sleep_outcome = Slept | SleepInterrupted

fun monitor_loop ::
  "(poll_outcome \<times> sleep_outcome) list \<Rightarrow> remote_call list \<Rightarrow>
   (string \<times> remote_call list) option" where
  "monitor_loop [] calls = None"
| "monitor_loop ((KeyboardInterrupt, s) # script) calls =
     Some (''monitoring_stopped'', calls @ [TrainingsGet])"
| "monitor_loop ((Exception e, s) # script) calls = Some (''error'', calls @ [TrainingsGet])"
| "monitor_loop ((Status status, s) # script) calls =
     (if status = ''succeeded'' then Some (status, calls @ [TrainingsGet])
      else if status = ''failed'' then Some (status, calls @ [TrainingsGet])
      else if status = ''canceled'' then Some (status, calls @ [TrainingsGet])
      else (case s of
              SleepInterrupted \<Rightarrow> Some (''monitoring_stopped'', calls @ [TrainingsGet])
            | Slept \<Rightarrow> monitor_loop script (calls @ [TrainingsGet])))"

definition monitor_training ::
  "(poll_outcome \<times> sleep_outcome) list \<Rightarrow> (string \<times> remote_call list) option" where
  "monitor_training script = monitor_loop script []"

definition terminal :: "string \<Rightarrow> bool" where
  "terminal status \<longleftrightarrow> status \<in> {''succeeded'', ''failed'', ''canceled''}"

text \<open>A pass that reads a non-terminal status and sleeps through the interval.\<close>

fun waiting :: "poll_outcome \<times> sleep_outcome \<Rightarrow> bool" where
  "waiting (Status status, Slept) = (\<not> terminal status)"
| "waiting _ = False"

text \<open>A pass in which the interrupt arrives, during the status call or during the sleep.\<close>

fun interrupted :: "poll_outcome \<times> sleep_outcome \<Rightarrow> bool" where
  "interrupted (KeyboardInterrupt, s) = True"
| "interrupted (Status status, SleepInterrupted) = (\<not> terminal status)"
| "interrupted _ = False"

subsection \<open>cancel\_training\<close>


subsection \<open>download\_result: naming the weights file\<close>

text \<open>\<open>s.split(c)\<close> for a separator of one character; the result is never empty.\<close>

fun split :: "char \<Rightarrow> string \<Rightarrow> string list" where
  "split c [] = [[]]"
| "split c (x # xs) =
     (if x = c then [] # split c xs
      else (case split c xs of [] \<Rightarrow> [[x]] | w # ws \<Rightarrow> (x # w) # ws))"


text \<open>\<open>input_config.get('trigger_word', 'lora')\<close>.\<close>

definition trigger_word_of :: "string option \<Rightarrow> string" where
  "trigger_word_of t = (case t of None \<Rightarrow> ''lora'' | Some w \<Rightarrow> w)"




section \<open>Properties of the dataset validation\<close>

lemma txt_not_image: "''.txt'' \<notin> image_extensions"
  by (simp add: image_extensions_def)

lemma categorize_images:
  "fst (categorize fs) =
     map (\<lambda>f. (fst (splitext f), f))
       (filter (\<lambda>f. snd (splitext (lower f)) \<in> image_extensions) fs)"
  by (induction fs) (auto simp add: Let_def split: prod.splits)

lemma categorize_texts:
  "fst (snd (categorize fs)) =
     map (\<lambda>f. (fst (splitext f), f)) (filter (\<lambda>f. snd (splitext (lower f)) = ''.txt'') fs)"
  by (induction fs) (auto simp add: Let_def txt_not_image split: prod.splits)

lemma categorize_others:
  "snd (snd (categorize fs)) =
     filter (\<lambda>f. snd (splitext (lower f)) \<notin> image_extensions \<and>
                 snd (splitext (lower f)) \<noteq> ''.txt'') fs"
  by (induction fs) (auto simp add: Let_def split: prod.splits)

lemma image_files_of_eq:
  "image_files_of fl = map (\<lambda>f. (fst (splitext f), f))
     (filter (\<lambda>f. snd (splitext (lower f)) \<in> image_extensions) (filter is_valid_file fl))"
  by (simp add: image_files_of_def categorize_images)

lemma text_files_of_eq:
  "text_files_of fl = map (\<lambda>f. (fst (splitext f), f))
     (filter (\<lambda>f. snd (splitext (lower f)) = ''.txt'') (filter is_valid_file fl))"
  by (simp add: text_files_of_def categorize_texts)

lemma other_files_of_eq:
  "other_files_of fl =
     filter (\<lambda>f. snd (splitext (lower f)) \<notin> image_extensions \<and>
                 snd (splitext (lower f)) \<noteq> ''.txt'') (filter is_valid_file fl)"
  by (simp add: other_files_of_def categorize_others)

lemma validate_unfold:
  "validate_dataset_structure ord fl =
     (if filter is_valid_file fl = [] then ([], Inl (reraise empty_archive_message))
      else if image_files_of fl = [] then ([], Inl (reraise (no_images_message ord)))
      else if text_files_of fl = [] then ([], Inl (reraise no_captions_message))
      else if image_bases_of fl - text_bases_of fl \<noteq> {}
      then ([], Inl (reraise (unpaired_images_message ord (image_bases_of fl - text_bases_of fl))))
      else ((if text_bases_of fl - image_bases_of fl \<noteq> {}
             then [unpaired_texts_warning (text_bases_of fl - image_bases_of fl)] else []) @
            [success_message (card (image_bases_of fl \<inter> text_bases_of fl))] @
            (if other_files_of fl \<noteq> [] then [other_files_note (other_files_of fl)] else []),
            Inr True))"
  unfolding validate_dataset_structure_def image_files_of_def text_files_of_def
    other_files_of_def image_bases_of_def text_bases_of_def Let_def
  by (simp split: prod.splits)

lemma reraise_no_captions: "reraise no_captions_message = ValueError no_captions_message"
proof -
  have "no_captions_message = ''No '' @ ''caption'' @ drop 10 no_captions_message"
    by (simp add: no_captions_message_def)
  then have "sublist ''caption'' no_captions_message"
    by (metis sublist_appendI)
  then show ?thesis by (simp add: reraise_def)
qed

lemma reraise_unpaired:
  "reraise (unpaired_images_message ord S) = ValueError (unpaired_images_message ord S)"
proof -
  have "\<exists>ps ss. unpaired_images_message ord S = ps @ ''caption'' @ ss"
    unfolding unpaired_images_message_def
    by (rule exI [of _ "''Found '' @ str_nat (card S) @ '' image(s) without matching ''"],
        rule exI) simp
  then have "sublist ''caption'' (unpaired_images_message ord S)"
    by (simp add: sublist_def)
  then show ?thesis by (simp add: reraise_def)
qed

lemma no_files_no_images: "filter is_valid_file fl = [] \<Longrightarrow> image_files_of fl = []"
  by (simp add: image_files_of_def)


lemma sublist_join: "x \<in> set xs \<Longrightarrow> sublist x (join sep xs)"
proof (induction sep xs rule: join.induct)
  case (3 sep a b bs)
  show ?case
  proof (cases "x = a")
    case True
    then show ?thesis by simp
  next
    case False
    with 3 have "sublist x (join sep (b # bs))" by simp
    then obtain ps ss where "join sep (b # bs) = ps @ x @ ss"
      by (auto simp add: sublist_def)
    then have "join sep (a # b # bs) = (a @ sep @ ps) @ x @ ss" by simp
    then show ?thesis unfolding sublist_def by blast
  qed
qed simp_all

lemma sublist_embed: "sublist x ys \<Longrightarrow> sublist x (ps @ ys @ ss)"
proof -
  assume "sublist x ys"
  then obtain p s where "ys = p @ x @ s" by (auto simp add: sublist_def)
  then have "ps @ ys @ ss = (ps @ p) @ x @ (s @ ss)" by simp
  then show ?thesis unfolding sublist_def by blast
qed

lemma set_iteration_singleton: "set_iteration ord \<Longrightarrow> ord {a} = [a]"
proof -
  assume "set_iteration ord"
  then have "set (ord {a}) = {a}" "distinct (ord {a})"
    by (simp_all add: set_iteration_def)
  then show ?thesis by (cases "ord {a}") (auto simp add: subset_singleton_iff)
qed

lemma set_iteration_sorted: "set_iteration sorted_list_of_set"
  by (simp add: set_iteration_def)

lemma image_extensions_iff:
  "e \<in> image_extensions \<longleftrightarrow>
     e = ''.jpg'' \<or> e = ''.jpeg'' \<or> e = ''.png'' \<or> e = ''.bmp'' \<or> e = ''.tiff'' \<or>
     e = ''.tif'' \<or> e = ''.webp''"
  by (simp add: image_extensions_def)

lemma lower_examples:
  "lower ''a.jpg'' = ''a.jpg''" "lower ''a.txt'' = ''a.txt''"
  "lower ''b.png'' = ''b.png''" "lower ''b.txt'' = ''b.txt''"
  "lower ''notes.md'' = ''notes.md''" "lower ''c.png'' = ''c.png''"
  "lower ''A.JPG'' = ''a.jpg''" "lower ''A.txt'' = ''a.txt''"
  "lower ''sub/a.jpg'' = ''sub/a.jpg''" "lower ''sub/a.txt'' = ''sub/a.txt''"
  "lower ''folder/.hidden.txt'' = ''folder/.hidden.txt''"
  by (simp_all add: lower_def lower_char_def)

lemma splitext_examples:
  "splitext ''a.jpg'' = (''a'', ''.jpg'')" "splitext ''a.txt'' = (''a'', ''.txt'')"
  "splitext ''b.png'' = (''b'', ''.png'')" "splitext ''b.txt'' = (''b'', ''.txt'')"
  "splitext ''notes.md'' = (''notes'', ''.md'')" "splitext ''c.png'' = (''c'', ''.png'')"
  "splitext ''A.JPG'' = (''A'', ''.JPG'')" "splitext ''A.txt'' = (''A'', ''.txt'')"
  "splitext ''sub/a.jpg'' = (''sub/a'', ''.jpg'')" "splitext ''sub/a.txt'' = (''sub/a'', ''.txt'')"
  "splitext ''folder/.hidden.txt'' = (''folder/.hidden'', ''.txt'')"
  by (simp_all add: splitext_def rfind_def)

lemma is_valid_file_examples:
  "is_valid_file ''a.jpg''" "is_valid_file ''a.txt''" "is_valid_file ''b.png''"
  "is_valid_file ''b.txt''" "is_valid_file ''notes.md''" "is_valid_file ''c.png''" "is_valid_file ''A.JPG''"
  "is_valid_file ''A.txt''" "is_valid_file ''sub/a.jpg''" "is_valid_file ''sub/a.txt''"
  "is_valid_file ''folder/.hidden.txt''" "\<not> is_valid_file ''.hidden.txt''"
  "\<not> is_valid_file ''sub/''" "\<not> is_valid_file ''__MACOSX/a.txt''"
  by (simp_all add: is_valid_file_def suffix_to_prefix)

lemmas listing_simps = image_files_of_eq text_files_of_eq other_files_of_eq
  image_bases_of_def text_bases_of_def image_extensions_iff
  lower_examples splitext_examples is_valid_file_examples

lemma str_nat_examples: "str_nat (Suc 0) = ''1''" "str_nat 1 = ''1''" "str_nat 2 = ''2''"
  by (simp_all add: str_nat.simps digit_char_def)



lemma no_images_not_no_captions:
  "reraise (no_images_message ord) \<noteq> ValueError no_captions_message"
  by (simp add: reraise_def no_images_message_def no_captions_message_def)

lemma no_captions_not_unpaired: "no_captions_message \<noteq> unpaired_images_message ord S"
  by (simp add: no_captions_message_def unpaired_images_message_def)

lemma no_captions_mentions:
  "sublist ''Manual captioning is required'' no_captions_message"
  "sublist (''Example: image1.jpg '' @ arrow @ '' image1.txt'') no_captions_message"
proof -
  have "no_captions_message =
      (''No caption files (.txt) found in dataset.'' @ newline @ ''IMPORTANT: '') @
      ''Manual captioning is required'' @
      ('' - each image must have a corresponding .txt file.'' @ newline @
       ''Example: image1.jpg '' @ arrow @ '' image1.txt, photo2.png '' @ arrow @ '' photo2.txt'')"
    by (simp add: no_captions_message_def)
  then show "sublist ''Manual captioning is required'' no_captions_message"
    unfolding sublist_def by blast
  have "no_captions_message =
      (''No caption files (.txt) found in dataset.'' @ newline @
       ''IMPORTANT: Manual captioning is required - each image must have a corresponding .txt file.''
       @ newline) @
      (''Example: image1.jpg '' @ arrow @ '' image1.txt'') @
      ('', photo2.png '' @ arrow @ '' photo2.txt'')"
    by (simp add: no_captions_message_def)
  then show "sublist (''Example: image1.jpg '' @ arrow @ '' image1.txt'') no_captions_message"
    unfolding sublist_def by blast
qed


text \<open>
  Claim C2, as amended. A listing with at least one image file and no caption file is
  rejected with the no-captions message, however many images it holds; the message says
  that manual captioning is required and gives the example \<open>image1.jpg\<close>,
  \<open>image1.txt\<close>.
\<close>
theorem no_captions_error:
  "(image_files_of fl \<noteq> [] \<and> text_files_of fl = [] \<longrightarrow>
      validate_dataset_structure ord fl = ([], Inl (ValueError no_captions_message))) \<and>
   sublist ''Manual captioning is required'' no_captions_message \<and>
   sublist (''Example: image1.jpg '' @ arrow @ '' image1.txt'') no_captions_message"
proof -
  have "validate_dataset_structure ord fl = ([], Inl (ValueError no_captions_message))"
    if "image_files_of fl \<noteq> []" and "text_files_of fl = []"
    using that no_files_no_images [of fl]
    by (auto simp add: validate_unfold reraise_no_captions)
  with no_captions_mentions show ?thesis by blast
qed

text \<open>The listing \<open>a.jpg\<close> alone is rejected with the no-captions message.\<close>
theorem no_captions_error_witness:
  "image_files_of [''a.jpg''] \<noteq> [] \<and> text_files_of [''a.jpg''] = [] \<and>
   validate_dataset_structure sorted_list_of_set [''a.jpg''] =
     ([], Inl (ValueError no_captions_message))"
proof -
  have files: "image_files_of [''a.jpg''] \<noteq> []" "text_files_of [''a.jpg''] = []"
    by (simp_all add: listing_simps)
  show ?thesis
    using no_captions_error [of "[''a.jpg'']" sorted_list_of_set] files by simp
qed

text \<open>
  A listing with neither captions nor images, \<open>notes.md\<close>, is rejected by the earlier test
  for images, with a different message.
\<close>
theorem no_captions_without_images_counterexample:
  "text_files_of [''notes.md''] = [] \<and>
   validate_dataset_structure sorted_list_of_set [''notes.md''] =
     ([], Inl (reraise (no_images_message sorted_list_of_set))) \<and>
   reraise (no_images_message sorted_list_of_set) \<noteq> ValueError no_captions_message"
  by (simp add: validate_unfold listing_simps no_images_not_no_captions)

lemma unpaired_names:
  assumes "set_iteration ord" and "finite U"
  shows "length (take 5 (ord U)) = min 5 (card U)"
    and "distinct (take 5 (ord U))"
    and "set (take 5 (ord U)) \<subseteq> U"
    and "card U \<le> 5 \<Longrightarrow> set (take 5 (ord U)) = U"
proof -
  from assms have enum: "set (ord U) = U" "distinct (ord U)"
    by (simp_all add: set_iteration_def)
  then have len: "length (ord U) = card U"
    by (metis distinct_card)
  then show "length (take 5 (ord U)) = min 5 (card U)" by simp
  from enum show "distinct (take 5 (ord U))" by simp
  from enum show "set (take 5 (ord U)) \<subseteq> U" by (metis set_take_subset)
  from enum len show "set (take 5 (ord U)) = U" if "card U \<le> 5"
    using that by simp
qed

lemma unpaired_message_lists:
  "n \<in> set (take 5 (ord U)) \<Longrightarrow> sublist n (unpaired_images_message ord U)"
proof -
  assume "n \<in> set (take 5 (ord U))"
  then have listed: "sublist n (join '', '' (take 5 (ord U)))"
    by (rule sublist_join)
  have shape: "unpaired_images_message ord U =
      (''Found '' @ str_nat (card U) @ '' image(s) without matching caption files.'' @ newline @
       ''Missing captions for: '') @ join '', '' (take 5 (ord U)) @
      ((if 5 < card U then '' and '' @ str_nat (card U - 5) @ '' more'' else []) @ newline @
       ''Each image must have a corresponding .txt file with the same filename.'')"
    by (simp add: unpaired_images_message_def)
  show ?thesis
    unfolding shape using listed by (rule sublist_embed)
qed

lemma unpaired_message_remainder:
  assumes "5 < card U"
  shows "sublist ('' and '' @ str_nat (card U - 5) @ '' more'') (unpaired_images_message ord U)"
proof -
  from assms have "unpaired_images_message ord U =
      (''Found '' @ str_nat (card U) @ '' image(s) without matching caption files.'' @ newline @
       ''Missing captions for: '' @ join '', '' (take 5 (ord U))) @
      ('' and '' @ str_nat (card U - 5) @ '' more'') @
      (newline @ ''Each image must have a corresponding .txt file with the same filename.'')"
    by (simp add: unpaired_images_message_def)
  then show ?thesis
    unfolding sublist_def by blast
qed

lemma finite_image_bases: "finite (image_bases_of fl - text_bases_of fl)"
  by (simp add: image_bases_of_def)

lemma six_images_sorted:
  "sorted_list_of_set {''a1'', ''a2'', ''a3'', ''a4'', ''a5'', ''a6''} =
     [''a1'', ''a2'', ''a3'', ''a4'', ''a5'', ''a6'']"
  by (simp add: less_eq_char_def less_char_def)

lemma six_images_examples:
  "lower ''a1.jpg'' = ''a1.jpg''" "lower ''a2.jpg'' = ''a2.jpg''" "lower ''a3.jpg'' = ''a3.jpg''"
  "lower ''a4.jpg'' = ''a4.jpg''" "lower ''a5.jpg'' = ''a5.jpg''" "lower ''a6.jpg'' = ''a6.jpg''"
  "splitext ''a1.jpg'' = (''a1'', ''.jpg'')" "splitext ''a2.jpg'' = (''a2'', ''.jpg'')"
  "splitext ''a3.jpg'' = (''a3'', ''.jpg'')" "splitext ''a4.jpg'' = (''a4'', ''.jpg'')"
  "splitext ''a5.jpg'' = (''a5'', ''.jpg'')" "splitext ''a6.jpg'' = (''a6'', ''.jpg'')"
  "is_valid_file ''a1.jpg''" "is_valid_file ''a2.jpg''" "is_valid_file ''a3.jpg''"
  "is_valid_file ''a4.jpg''" "is_valid_file ''a5.jpg''" "is_valid_file ''a6.jpg''"
  by (simp_all add: lower_def lower_char_def splitext_def rfind_def is_valid_file_def
      suffix_to_prefix)

lemma six_images_unpaired:
  "image_bases_of [''a1.jpg'', ''a2.jpg'', ''a3.jpg'', ''a4.jpg'', ''a5.jpg'', ''a6.jpg'', ''b.txt''] -
   text_bases_of [''a1.jpg'', ''a2.jpg'', ''a3.jpg'', ''a4.jpg'', ''a5.jpg'', ''a6.jpg'', ''b.txt''] =
   {''a1'', ''a2'', ''a3'', ''a4'', ''a5'', ''a6''}"
  by (simp add: listing_simps six_images_examples)

lemma six_images_message:
  "unpaired_images_message sorted_list_of_set {''a1'', ''a2'', ''a3'', ''a4'', ''a5'', ''a6''} =
     ''Found 6 image(s) without matching caption files.'' @ newline @
     ''Missing captions for: a1, a2, a3, a4, a5 and 1 more'' @ newline @
     ''Each image must have a corresponding .txt file with the same filename.''"
  by (simp add: unpaired_images_message_def six_images_sorted str_nat.simps digit_char_def)

lemma six_images_result:
  "validate_dataset_structure sorted_list_of_set
     [''a1.jpg'', ''a2.jpg'', ''a3.jpg'', ''a4.jpg'', ''a5.jpg'', ''a6.jpg'', ''b.txt''] =
   ([], Inl (ValueError (unpaired_images_message sorted_list_of_set
      {''a1'', ''a2'', ''a3'', ''a4'', ''a5'', ''a6''})))"
  using six_images_unpaired
  by (simp add: validate_unfold reraise_unpaired image_files_of_eq text_files_of_eq
      image_extensions_iff six_images_examples lower_examples splitext_examples is_valid_file_examples)

lemma six_images_not_listed:
  "\<not> sublist ''a6'' (''Found 6 image(s) without matching caption files.'' @ newline @
     ''Missing captions for: a1, a2, a3, a4, a5 and 1 more'' @ newline @
     ''Each image must have a corresponding .txt file with the same filename.'')"
  by (simp add: sublist_code newline_def)

text \<open>
  Claim C3, as amended. When the listing has a caption file and some image base name has
  no caption, validation is rejected with the unpaired-images message. The message names
  the first five unpaired base names in the iteration order of the set, or all of them
  when there are at most five, and with more than five it ends the list with the number
  of those left out.
\<close>
theorem unpaired_images_error:
  assumes "set_iteration ord"
    and "text_files_of fl \<noteq> []"
    and "image_bases_of fl - text_bases_of fl \<noteq> {}"
  shows "validate_dataset_structure ord fl =
           ([], Inl (ValueError
              (unpaired_images_message ord (image_bases_of fl - text_bases_of fl)))) \<and>
         length (take 5 (ord (image_bases_of fl - text_bases_of fl))) =
           min 5 (card (image_bases_of fl - text_bases_of fl)) \<and>
         distinct (take 5 (ord (image_bases_of fl - text_bases_of fl))) \<and>
         set (take 5 (ord (image_bases_of fl - text_bases_of fl)))
           \<subseteq> image_bases_of fl - text_bases_of fl \<and>
         (card (image_bases_of fl - text_bases_of fl) \<le> 5 \<longrightarrow>
            set (take 5 (ord (image_bases_of fl - text_bases_of fl))) =
              image_bases_of fl - text_bases_of fl) \<and>
         (\<forall>n \<in> set (take 5 (ord (image_bases_of fl - text_bases_of fl))).
            sublist n (unpaired_images_message ord (image_bases_of fl - text_bases_of fl))) \<and>
         (5 < card (image_bases_of fl - text_bases_of fl) \<longrightarrow>
            sublist ('' and '' @ str_nat (card (image_bases_of fl - text_bases_of fl) - 5) @ '' more'')
              (unpaired_images_message ord (image_bases_of fl - text_bases_of fl)))"
proof -
  let ?U = "image_bases_of fl - text_bases_of fl"
  from assms(3) have "image_files_of fl \<noteq> []"
    by (auto simp add: image_bases_of_def)
  with assms(2,3) have result: "validate_dataset_structure ord fl =
      ([], Inl (ValueError (unpaired_images_message ord ?U)))"
    using no_files_no_images [of fl]
    by (auto simp add: validate_unfold reraise_unpaired)
  have names: "length (take 5 (ord ?U)) = min 5 (card ?U)" "distinct (take 5 (ord ?U))"
    "set (take 5 (ord ?U)) \<subseteq> ?U"
    by (rule unpaired_names [OF assms(1) finite_image_bases])+
  have all_names: "card ?U \<le> 5 \<longrightarrow> set (take 5 (ord ?U)) = ?U"
    using unpaired_names(4) [OF assms(1) finite_image_bases] by blast
  have listed: "\<forall>n \<in> set (take 5 (ord ?U)). sublist n (unpaired_images_message ord ?U)"
    using unpaired_message_lists by blast
  have msg: "5 < card ?U \<longrightarrow>
      sublist ('' and '' @ str_nat (card ?U - 5) @ '' more'') (unpaired_images_message ord ?U)"
    using unpaired_message_remainder by blast
  from result names all_names listed msg show ?thesis
    by - (intro conjI, assumption+)
qed

text \<open>In \<open>a.jpg, c.png, a.txt\<close> the image \<open>c\<close> has no caption and is named.\<close>
theorem unpaired_images_error_witness:
  "set_iteration sorted_list_of_set \<and>
   text_files_of [''a.jpg'', ''c.png'', ''a.txt''] \<noteq> [] \<and>
   image_bases_of [''a.jpg'', ''c.png'', ''a.txt''] - text_bases_of [''a.jpg'', ''c.png'', ''a.txt'']
     = {''c''} \<and>
   validate_dataset_structure sorted_list_of_set [''a.jpg'', ''c.png'', ''a.txt''] =
     ([], Inl (ValueError (unpaired_images_message sorted_list_of_set {''c''}))) \<and>
   take 5 (sorted_list_of_set {''c''}) = [''c''] \<and>
   sublist ''c'' (unpaired_images_message sorted_list_of_set {''c''})"
proof -
  let ?fl = "[''a.jpg'', ''c.png'', ''a.txt'']"
  have texts: "text_files_of ?fl \<noteq> []"
    by (simp add: listing_simps)
  have unpaired: "image_bases_of ?fl - text_bases_of ?fl = {''c''}"
    by (simp add: listing_simps)
  then have nonempty: "image_bases_of ?fl - text_bases_of ?fl \<noteq> {}"
    by simp
  note err = unpaired_images_error [OF set_iteration_sorted texts nonempty, unfolded unpaired]
  have names: "take 5 (sorted_list_of_set {''c''}) = [''c'']"
    by simp
  from err have "\<forall>n \<in> set (take 5 (sorted_list_of_set {''c''})).
      sublist n (unpaired_images_message sorted_list_of_set {''c''})"
    by blast
  then have "sublist ''c'' (unpaired_images_message sorted_list_of_set {''c''})"
    unfolding names by simp
  with err names unpaired set_iteration_sorted texts show ?thesis
    by blast
qed

text \<open>
  Two listings with an image that lacks a caption: \<open>a.jpg\<close> alone is rejected with the
  no-captions message, not the unpaired-images one; and of six unpaired images next to
  \<open>b.txt\<close>, in sorted iteration order, the message leaves \<open>a6\<close> out.
\<close>
theorem unpaired_without_captions_counterexample:
  "''a'' \<in> image_bases_of [''a.jpg''] - text_bases_of [''a.jpg''] \<and>
   validate_dataset_structure sorted_list_of_set [''a.jpg''] =
     ([], Inl (ValueError no_captions_message)) \<and>
   no_captions_message \<noteq>
     unpaired_images_message sorted_list_of_set
       (image_bases_of [''a.jpg''] - text_bases_of [''a.jpg'']) \<and>
   ''a6'' \<in>
     image_bases_of
       [''a1.jpg'', ''a2.jpg'', ''a3.jpg'', ''a4.jpg'', ''a5.jpg'', ''a6.jpg'', ''b.txt''] -
     text_bases_of
       [''a1.jpg'', ''a2.jpg'', ''a3.jpg'', ''a4.jpg'', ''a5.jpg'', ''a6.jpg'', ''b.txt''] \<and>
   validate_dataset_structure sorted_list_of_set
       [''a1.jpg'', ''a2.jpg'', ''a3.jpg'', ''a4.jpg'', ''a5.jpg'', ''a6.jpg'', ''b.txt''] =
     ([], Inl (ValueError
        (''Found 6 image(s) without matching caption files.'' @ newline @
         ''Missing captions for: a1, a2, a3, a4, a5 and 1 more'' @ newline @
         ''Each image must have a corresponding .txt file with the same filename.''))) \<and>
   \<not> sublist ''a6''
     (''Found 6 image(s) without matching caption files.'' @ newline @
      ''Missing captions for: a1, a2, a3, a4, a5 and 1 more'' @ newline @
      ''Each image must have a corresponding .txt file with the same filename.'')"
proof -
  have "''a'' \<in> image_bases_of [''a.jpg''] - text_bases_of [''a.jpg'']"
    by (simp add: listing_simps)
  moreover have "validate_dataset_structure sorted_list_of_set [''a.jpg''] =
      ([], Inl (ValueError no_captions_message))"
    by (simp add: validate_unfold listing_simps reraise_no_captions)
  moreover have "''a6'' \<in>
      image_bases_of
        [''a1.jpg'', ''a2.jpg'', ''a3.jpg'', ''a4.jpg'', ''a5.jpg'', ''a6.jpg'', ''b.txt''] -
      text_bases_of
        [''a1.jpg'', ''a2.jpg'', ''a3.jpg'', ''a4.jpg'', ''a5.jpg'', ''a6.jpg'', ''b.txt'']"
    unfolding six_images_unpaired by simp
  moreover have "validate_dataset_structure sorted_list_of_set
        [''a1.jpg'', ''a2.jpg'', ''a3.jpg'', ''a4.jpg'', ''a5.jpg'', ''a6.jpg'', ''b.txt''] =
      ([], Inl (ValueError
         (''Found 6 image(s) without matching caption files.'' @ newline @
          ''Missing captions for: a1, a2, a3, a4, a5 and 1 more'' @ newline @
          ''Each image must have a corresponding .txt file with the same filename.'')))"
    unfolding six_images_result six_images_message by (rule refl)
  ultimately show ?thesis
    using no_captions_not_unpaired six_images_not_listed by blast
qed

text \<open>
  Claim C4, as amended. The listing \<open>a.jpg, b.txt\<close> is rejected with the unpaired-images
  message naming \<open>a\<close>, and nothing is printed: the caption \<open>b\<close> without an image is
  computed, but the warning about it comes after the rejection in the code.
\<close>
theorem unpaired_image_no_warning:
  assumes "set_iteration ord"
  shows "validate_dataset_structure ord [''a.jpg'', ''b.txt''] =
           ([], Inl (ValueError
              (''Found 1 image(s) without matching caption files.'' @ newline @
               ''Missing captions for: a'' @ newline @
               ''Each image must have a corresponding .txt file with the same filename.''))) \<and>
         image_bases_of [''a.jpg'', ''b.txt''] - text_bases_of [''a.jpg'', ''b.txt''] = {''a''} \<and>
         text_bases_of [''a.jpg'', ''b.txt''] - image_bases_of [''a.jpg'', ''b.txt''] = {''b''}"
proof -
  have "unpaired_images_message ord {''a''} =
      ''Found 1 image(s) without matching caption files.'' @ newline @
      ''Missing captions for: a'' @ newline @
      ''Each image must have a corresponding .txt file with the same filename.''"
    using assms
    by (simp add: unpaired_images_message_def set_iteration_singleton str_nat_examples)
  moreover have "validate_dataset_structure ord [''a.jpg'', ''b.txt''] =
      ([], Inl (ValueError (unpaired_images_message ord {''a''})))"
    by (simp add: validate_unfold listing_simps reraise_unpaired)
  moreover have
    "image_bases_of [''a.jpg'', ''b.txt''] - text_bases_of [''a.jpg'', ''b.txt''] = {''a''}"
    "text_bases_of [''a.jpg'', ''b.txt''] - image_bases_of [''a.jpg'', ''b.txt''] = {''b''}"
    by (simp_all add: listing_simps)
  ultimately show ?thesis
    by (simp only:)
qed

text \<open>The same listing under the sorted iteration order.\<close>
theorem unpaired_image_no_warning_witness:
  "set_iteration sorted_list_of_set \<and>
   validate_dataset_structure sorted_list_of_set [''a.jpg'', ''b.txt''] =
     ([], Inl (ValueError
        (''Found 1 image(s) without matching caption files.'' @ newline @
         ''Missing captions for: a'' @ newline @
         ''Each image must have a corresponding .txt file with the same filename.'')))"
  using unpaired_image_no_warning [OF set_iteration_sorted] set_iteration_sorted by simp

text \<open>For \<open>a.jpg, b.txt\<close> the validator prints no line at all, so no warning.\<close>
theorem warning_not_emitted_counterexample:
  "text_bases_of [''a.jpg'', ''b.txt''] - image_bases_of [''a.jpg'', ''b.txt''] = {''b''} \<and>
   fst (validate_dataset_structure sorted_list_of_set [''a.jpg'', ''b.txt'']) = [] \<and>
   unpaired_texts_warning {''b''} \<notin>
     set (fst (validate_dataset_structure sorted_list_of_set [''a.jpg'', ''b.txt'']))"
  by (simp add: validate_unfold listing_simps)


section \<open>Properties of the training manager\<close>

lemma monitor_loop_waiting:
  "list_all waiting pre \<Longrightarrow>
   monitor_loop (pre @ rest) calls =
   monitor_loop rest (calls @ replicate (length pre) TrainingsGet)"
proof (induction pre arbitrary: calls)
  case Nil
  then show ?case by simp
next
  case (Cons p pre)
  then obtain status where p: "p = (Status status, Slept)" and nt: "\<not> terminal status"
    by (cases p rule: waiting.cases) auto
  from Cons have "monitor_loop (pre @ rest) (calls @ [TrainingsGet]) =
    monitor_loop rest ((calls @ [TrainingsGet]) @ replicate (length pre) TrainingsGet)"
    by simp
  with p nt show ?case
    by (simp add: terminal_def replicate_append_same)
qed

lemma monitor_loop_calls:
  "monitor_loop script calls = Some (r, calls') \<Longrightarrow>
   set calls \<subseteq> {TrainingsGet} \<Longrightarrow> set calls' \<subseteq> {TrainingsGet}"
  by (induction script calls rule: monitor_loop.induct)
     (auto split: if_splits sleep_outcome.splits)

text \<open>
  Claim C5. After any number of passes that read a non-terminal status and sleep, a pass
  that reads \<open>succeeded\<close>, \<open>failed\<close> or \<open>canceled\<close> makes the monitor return that
  status, with one status call per pass so far and none for the rest of the script;
  passes that read non-terminal statuses, such as \<open>starting\<close> and \<open>processing\<close>, never
  make it return.
\<close>
theorem monitor_stops_at_first_terminal:
  "(list_all waiting pre \<and> terminal status \<longrightarrow>
      monitor_training (pre @ (Status status, s) # rest) =
        Some (status, replicate (Suc (length pre)) TrainingsGet)) \<and>
   (list_all waiting pre \<longrightarrow> monitor_training pre = None) \<and>
   \<not> terminal ''starting'' \<and> \<not> terminal ''processing''"
proof -
  have "monitor_training (pre @ (Status status, s) # rest) =
          Some (status, replicate (Suc (length pre)) TrainingsGet)"
    if "list_all waiting pre" and "terminal status"
    using that monitor_loop_waiting [of pre "(Status status, s) # rest" "[]"]
    by (auto simp add: monitor_training_def terminal_def replicate_append_same)
  moreover have "monitor_training pre = None" if "list_all waiting pre"
    using that monitor_loop_waiting [of pre "[]" "[]"]
    by (simp add: monitor_training_def)
  ultimately show ?thesis by (simp add: terminal_def)
qed

text \<open>Two waiting passes, then \<open>failed\<close>: three status calls.\<close>
theorem monitor_stops_at_first_terminal_witness:
  "monitor_training
     ([(Status ''starting'', Slept), (Status ''processing'', Slept)] @
      (Status ''failed'', Slept) # [(Status ''succeeded'', Slept)]) =
     Some (''failed'', [TrainingsGet, TrainingsGet, TrainingsGet]) \<and>
   monitor_training [(Status ''starting'', Slept), (Status ''processing'', Slept)] = None"
proof -
  have pre: "list_all waiting [(Status ''starting'', Slept), (Status ''processing'', Slept)]"
    by (simp add: terminal_def)
  have fin: "terminal ''failed''"
    by (simp add: terminal_def)
  show ?thesis
    using monitor_stops_at_first_terminal
      [of "[(Status ''starting'', Slept), (Status ''processing'', Slept)]" "''failed''" Slept
        "[(Status ''succeeded'', Slept)]"] pre fin
    by (simp add: numeral_2_eq_2)
qed

text \<open>
  The statuses \<open>starting, processing, processing, succeeded\<close> take four status calls;
  after three the monitor is still polling.
\<close>
theorem monitor_three_polls_counterexample:
  "monitor_training
     [(Status ''starting'', Slept), (Status ''processing'', Slept),
      (Status ''processing'', Slept), (Status ''succeeded'', Slept)] =
     Some (''succeeded'', [TrainingsGet, TrainingsGet, TrainingsGet, TrainingsGet]) \<and>
   monitor_training
     [(Status ''starting'', Slept), (Status ''processing'', Slept),
      (Status ''processing'', Slept), (Status ''succeeded'', Slept)] \<noteq>
     Some (''succeeded'', [TrainingsGet, TrainingsGet, TrainingsGet]) \<and>
   monitor_training
     [(Status ''starting'', Slept), (Status ''processing'', Slept),
      (Status ''processing'', Slept)] = None"
  by (simp add: monitor_training_def)

text \<open>
  Claim C6, as amended. For the statuses \<open>starting, processing, processing, succeeded\<close>
  the monitor returns \<open>succeeded\<close> after exactly four status calls (three that are
  followed by a sleep and the one that reads \<open>succeeded\<close>) and makes no further call.
\<close>
theorem monitor_succeeds_on_fourth_poll:
  "monitor_training
     ([(Status ''starting'', Slept), (Status ''processing'', Slept),
       (Status ''processing'', Slept), (Status ''succeeded'', s)] @ rest) =
     Some (''succeeded'', [TrainingsGet, TrainingsGet, TrainingsGet, TrainingsGet])"
  by (simp add: monitor_training_def)

text \<open>
  Claim C7. An interrupt that arrives in a pass of the loop, during the status call or
  during the sleep, makes the monitor return \<open>monitoring_stopped\<close>; the calls it made are
  the status calls up to that pass. Whatever the script, a monitor that returns has sent
  no cancel request.
\<close>
theorem monitor_interrupt_stops:
  assumes "list_all waiting pre" and "interrupted p"
  shows "monitor_training (pre @ p # rest) =
           Some (''monitoring_stopped'', replicate (Suc (length pre)) TrainingsGet) \<and>
         (monitor_training script = Some (result, calls) \<longrightarrow> TrainingCancel \<notin> set calls)"
proof -
  have "monitor_loop (p # rest) calls = Some (''monitoring_stopped'', calls @ [TrainingsGet])"
    for calls
    using assms(2) by (cases p rule: interrupted.cases) (auto simp add: terminal_def)
  then have "monitor_training (pre @ p # rest) =
           Some (''monitoring_stopped'', replicate (Suc (length pre)) TrainingsGet)"
    using monitor_loop_waiting [OF assms(1), of "p # rest" "[]"]
    by (simp add: monitor_training_def replicate_append_same)
  moreover have "TrainingCancel \<notin> set calls"
    if "monitor_training script = Some (result, calls)"
    using that monitor_loop_calls [of script "[]" result calls]
    by (auto simp add: monitor_training_def)
  ultimately show ?thesis by blast
qed

text \<open>The interrupt arrives in the second pass: two status calls, no third.\<close>
theorem monitor_interrupt_stops_witness:
  "monitor_training
     ([(Status ''starting'', Slept)] @ (KeyboardInterrupt, Slept) #
      [(Status ''processing'', Slept), (Status ''succeeded'', Slept)]) =
     Some (''monitoring_stopped'', [TrainingsGet, TrainingsGet]) \<and>
   monitor_training
     ([(Status ''starting'', Slept)] @ (Status ''processing'', SleepInterrupted) #
      [(Status ''processing'', Slept), (Status ''succeeded'', Slept)]) =
     Some (''monitoring_stopped'', [TrainingsGet, TrainingsGet]) \<and>
   TrainingCancel \<notin> set [TrainingsGet, TrainingsGet]"
proof -
  have pre: "list_all waiting [(Status ''starting'', Slept)]"
    by (simp add: terminal_def)
  have int1: "interrupted (KeyboardInterrupt, Slept)"
    by simp
  have int2: "interrupted (Status ''processing'', SleepInterrupted)"
    by (simp add: terminal_def)
  have run: "monitor_training
      ([(Status ''starting'', Slept)] @ (KeyboardInterrupt, Slept) #
       [(Status ''processing'', Slept), (Status ''succeeded'', Slept)]) =
      Some (''monitoring_stopped'', [TrainingsGet, TrainingsGet])"
    using monitor_interrupt_stops [OF pre int1] by simp
  show ?thesis
    using monitor_interrupt_stops [OF pre int1,
        of "[(Status ''processing'', Slept), (Status ''succeeded'', Slept)]"
          "[(Status ''starting'', Slept)] @ (KeyboardInterrupt, Slept) #
           [(Status ''processing'', Slept), (Status ''succeeded'', Slept)]"
          "''monitoring_stopped''" "[TrainingsGet, TrainingsGet]"]
      monitor_interrupt_stops [OF pre int2] run
    by simp
qed



lemma split_nonempty: "split c s \<noteq> []"
  by (induction s) (auto split: list.splits)












end
